theory Spec2Isabelle
  imports Complex_Main
begin

section \<open>The shopping cart of script.js\<close>

text \<open>
  The module \<open>Cart\<close> of \<open>src/script.js\<close> keeps an array \<open>items\<close> of line items in a
  closure and exports \<open>add\<close>, \<open>changeQty\<close>, \<open>open\<close> and \<open>close\<close>. The model below follows
  the source function by function. Texts are byte strings (UTF-8, as the source file
  stores them). What is left out: the writes of \<open>render\<close> and \<open>animateBadge\<close> into the page
  (badge text, the list of \<open>.cart-item\<close> elements, formatted prices), timers, and the
  click handlers, which do nothing but call the four exported functions.
\<close>

subsection \<open>Numbers\<close>

text \<open>
  A JavaScript number is a double. A finite double is modelled by the real it denotes, so
  rounding, overflow and the sign of zero are not in the model; \<open>NaN\<close> and the two
  infinities are.
\<close>

datatype number = NaN | Num real | PInf | NInf

instantiation number :: comm_monoid_add
begin

definition zero_number :: number where
  "zero_number = Num 0"

definition plus_number :: "number \<Rightarrow> number \<Rightarrow> number" where
  "plus_number a b =
     (case a of
        NaN \<Rightarrow> NaN
      | Num x \<Rightarrow> (case b of Num y \<Rightarrow> Num (x + y) | other \<Rightarrow> other)
      | PInf \<Rightarrow> (case b of NaN \<Rightarrow> NaN | NInf \<Rightarrow> NaN | other \<Rightarrow> PInf)
      | NInf \<Rightarrow> (case b of NaN \<Rightarrow> NaN | PInf \<Rightarrow> NaN | other \<Rightarrow> NInf))"

instance
proof
  fix a b c :: number
  show "a + b + c = a + (b + c)"
    by (cases a; cases b; cases c) (simp_all add: plus_number_def)
  show "a + b = b + a"
    by (cases a; cases b) (simp_all add: plus_number_def)
  show "0 + a = a"
    by (cases a) (simp_all add: plus_number_def zero_number_def)
qed

end

text \<open>\<open>price * qty\<close>, the quantity being an integer.\<close>

definition times_qty :: "number \<Rightarrow> int \<Rightarrow> number" where
  "times_qty p q =
     (case p of
        NaN \<Rightarrow> NaN
      | Num x \<Rightarrow> Num (x * of_int q)
      | PInf \<Rightarrow> (if 0 < q then PInf else if q < 0 then NInf else NaN)
      | NInf \<Rightarrow> (if 0 < q then NInf else if q < 0 then PInf else NaN))"

definition negate :: "number \<Rightarrow> number" where
  "negate a = (case a of NaN \<Rightarrow> NaN | Num x \<Rightarrow> Num (- x) | PInf \<Rightarrow> NInf | NInf \<Rightarrow> PInf)"

subsection \<open>Quantities\<close>

text \<open>
  A quantity is a double that holds an integer, modelled by \<open>int\<close>. The sum of two such
  doubles is their integer sum rounded to a double, that is to 53 significant bits, a tie
  going to the neighbour whose last bit is 0: \<open>toDouble\<close>, which changes nothing up to
  \<open>2 ^ 53\<close> in magnitude. A double has no finite value of magnitude \<open>2 ^ 1024\<close> or more
  (the code gets \<open>Infinity\<close> there), and this is not in the model: where a statement
  below names a rounded sum, the sum is kept under \<open>2 ^ 1023\<close>.
\<close>

function bitlen :: "int \<Rightarrow> nat" where
  "bitlen n = (if n \<le> 0 then 0 else Suc (bitlen (n div 2)))"
  by pat_completeness auto
termination
  by (relation "measure nat") auto

declare bitlen.simps [simp del]

definition roundMagnitude :: "int \<Rightarrow> int" where
  "roundMagnitude a =
     (if a < 2 ^ 53 then a
      else
        let e = bitlen a - 53;
            q = a div 2 ^ e;
            r = a mod 2 ^ e;
            half = 2 ^ (e - 1)
        in (if r < half \<or> (r = half \<and> even q) then q else q + 1) * 2 ^ e)"

definition toDouble :: "int \<Rightarrow> int" where
  "toDouble x = (if x < 0 then - roundMagnitude (- x) else roundMagnitude x)"

subsection \<open>parseFloat\<close>

text \<open>
  The built-in \<open>parseFloat\<close>: leading white space is dropped, then the longest prefix that
  is a \<open>StrDecimalLiteral\<close> (a sign, then \<open>Infinity\<close> or decimal digits with an optional
  fraction and an optional exponent) gives the value; without such a prefix the result
  is \<open>NaN\<close>. White space is the white space and line terminator code points of
  ECMAScript, here in UTF-8.
\<close>

definition whiteSpace :: "string list" where
  "whiteSpace =
     [[CHR 0x09], [CHR 0x0A], [CHR 0x0B], [CHR 0x0C], [CHR 0x0D], [CHR 0x20],
      [CHR 0xC2, CHR 0xA0], [CHR 0xE1, CHR 0x9A, CHR 0x80],
      [CHR 0xE2, CHR 0x80, CHR 0x80], [CHR 0xE2, CHR 0x80, CHR 0x81],
      [CHR 0xE2, CHR 0x80, CHR 0x82], [CHR 0xE2, CHR 0x80, CHR 0x83],
      [CHR 0xE2, CHR 0x80, CHR 0x84], [CHR 0xE2, CHR 0x80, CHR 0x85],
      [CHR 0xE2, CHR 0x80, CHR 0x86], [CHR 0xE2, CHR 0x80, CHR 0x87],
      [CHR 0xE2, CHR 0x80, CHR 0x88], [CHR 0xE2, CHR 0x80, CHR 0x89],
      [CHR 0xE2, CHR 0x80, CHR 0x8A], [CHR 0xE2, CHR 0x80, CHR 0xA8],
      [CHR 0xE2, CHR 0x80, CHR 0xA9], [CHR 0xE2, CHR 0x80, CHR 0xAF],
      [CHR 0xE2, CHR 0x81, CHR 0x9F], [CHR 0xE3, CHR 0x80, CHR 0x80],
      [CHR 0xEF, CHR 0xBB, CHR 0xBF]]"

fun stripSpace :: "string list \<Rightarrow> string \<Rightarrow> string option" where
  "stripSpace [] s = None"
| "stripSpace (w # ws) s =
     (if w \<noteq> [] \<and> take (length w) s = w then Some (drop (length w) s) else stripSpace ws s)"

function trimStart :: "string \<Rightarrow> string" where
  "trimStart s = (case stripSpace whiteSpace s of None \<Rightarrow> s | Some r \<Rightarrow> trimStart r)"
  by pat_completeness auto
termination
proof (relation "measure length")
  show "wf (measure length)" by simp
next
  fix s r
  assume stripped: "stripSpace whiteSpace s = Some r"
  have "stripSpace ws s = Some r \<Longrightarrow> length r < length s" for ws
  proof (induction ws)
    case Nil
    then show ?case by simp
  next
    case (Cons w ws)
    show ?case
    proof (cases "w \<noteq> [] \<and> take (length w) s = w")
      case True
      then have "length (take (length w) s) = length w"
        by simp
      then have "length w \<le> length s"
        by simp
      moreover from True have "0 < length w" by simp
      moreover from True Cons.prems have "r = drop (length w) s" by simp
      ultimately show ?thesis by (cases w; cases s) auto
    next
      case False
      with Cons show ?thesis by auto
    qed
  qed
  with stripped show "(r, s) \<in> measure length" by simp
qed

definition isDigit :: "char \<Rightarrow> bool" where
  "isDigit c \<longleftrightarrow> c \<in> set ''0123456789''"

definition digitsValue :: "string \<Rightarrow> nat" where
  "digitsValue ds = foldl (\<lambda>n c. 10 * n + (of_char c - 48)) 0 ds"

text \<open>The exponent part after the mantissa: \<open>e\<close> or \<open>E\<close>, a sign, and at least one digit.\<close>

definition exponentPart :: "string \<Rightarrow> int" where
  "exponentPart s =
     (case s of
        [] \<Rightarrow> 0
      | e # r \<Rightarrow>
          if e = CHR ''e'' \<or> e = CHR ''E'' then
            (let neg = (r \<noteq> [] \<and> hd r = CHR ''-'');
                 ds = takeWhile isDigit
                        (if r \<noteq> [] \<and> (hd r = CHR ''-'' \<or> hd r = CHR ''+'') then tl r else r)
             in if ds = [] then 0
                else if neg then - int (digitsValue ds) else int (digitsValue ds))
          else 0)"

definition strUnsignedDecimalLiteral :: "string \<Rightarrow> number option" where
  "strUnsignedDecimalLiteral s =
     (if take 8 s = ''Infinity'' then Some PInf
      else
        let ip = takeWhile isDigit s;
            r1 = dropWhile isDigit s;
            dot = (r1 \<noteq> [] \<and> hd r1 = CHR ''.'');
            fp = (if dot then takeWhile isDigit (tl r1) else []);
            r2 = (if dot then dropWhile isDigit (tl r1) else r1);
            m = real (digitsValue ip) + real (digitsValue fp) / 10 ^ length fp;
            e = exponentPart r2
        in if ip = [] \<and> fp = [] then None
           else Some (Num (if 0 \<le> e then m * 10 ^ nat e else m / 10 ^ nat (- e))))"

definition parseFloat :: "string \<Rightarrow> number" where
  "parseFloat string =
     (let trimmed = trimStart string;
          neg = (trimmed \<noteq> [] \<and> hd trimmed = CHR ''-'');
          body = (if trimmed \<noteq> [] \<and> (hd trimmed = CHR ''-'' \<or> hd trimmed = CHR ''+'')
                  then tl trimmed else trimmed)
      in case strUnsignedDecimalLiteral body of
           None \<Rightarrow> NaN
         | Some v \<Rightarrow> if neg then negate v else v)"

subsection \<open>The cart and the page\<close>

text \<open>
  The field \<open>emoji\<close> holds \<open>emojiMap[id] || default\<close>. The lookup \<open>emojiMap[id]\<close> also
  finds what an object literal inherits from \<open>Object.prototype\<close>, which is not a string
  and is truthy: \<open>Inherited\<close> stands for such a member.
\<close>

datatype glyph = Glyph string | Inherited string

record line_item =
  item_id :: string
  name :: string
  price :: number
  qty :: int
  emoji :: glyph

text \<open>
  The elements of the page that the functions below look up. An element that the page
  does not have is \<open>None\<close> (\<open>querySelector\<close> gives \<open>null\<close>). Of a class list only the
  class \<open>is-open\<close> is kept, the one class that \<open>open\<close> and \<open>close\<close> add and remove.
\<close>

record toast =
  textContent :: string
  className :: string

record drawer =
  drawer_is_open :: bool
  aria_hidden :: string

record overlay =
  overlay_is_open :: bool

datatype css_length = Unset | Px int

record page =
  toastEl :: "toast option"
  drawerEl :: "drawer option"
  overlayEl :: "overlay option"
  body_overflow :: string
  body_paddingRight :: css_length

record state =
  items :: "line_item list"
  page :: page

text \<open>
  A call either returns or stops at a \<open>TypeError\<close> (a property of \<open>null\<close> is written);
  both leave a state behind, since what was assigned before the error stays assigned.
\<close>

datatype 'a completion = Returns 'a | Throws 'a

fun state_of :: "'a completion \<Rightarrow> 'a" where
  "state_of (Returns s) = s"
| "state_of (Throws s) = s"


text \<open>The module starts with \<open>let items = []\<close>, in whatever page it is loaded.\<close>

definition Cart :: "page \<Rightarrow> state" where
  "Cart p = \<lparr>items = [], page = p\<rparr>"

subsection \<open>showToast\<close>

text \<open>
  \<open>showToast(message, type)\<close> writes the text and the class of \<open>#toast\<close>; the element is
  used without a test, so a page without it makes the call throw. The timer that hides
  the toast three seconds later is not modelled.
\<close>

definition showToast :: "string \<Rightarrow> string \<Rightarrow> page \<Rightarrow> page completion" where
  "showToast message type p =
     (case toastEl p of
        None \<Rightarrow> Throws p
      | Some t \<Rightarrow>
          Returns (p\<lparr>toastEl := Some (t\<lparr>textContent := message,
            className := ''toast is-visible'' @ (if type \<noteq> [] then '' toast--'' @ type else [])\<rparr>)\<rparr>))"

subsection \<open>add and changeQty\<close>

definition emojiMap :: "(string \<times> string) list" where
  "emojiMap =
     [(''1'', [CHR 0xF0, CHR 0x9F, CHR 0x8D, CHR 0x94]),
      (''2'', [CHR 0xF0, CHR 0x9F, CHR 0x8D, CHR 0x95]),
      (''3'', [CHR 0xF0, CHR 0x9F, CHR 0x8D, CHR 0xA3]),
      (''4'', [CHR 0xF0, CHR 0x9F, CHR 0xA5, CHR 0x97]),
      (''5'', [CHR 0xF0, CHR 0x9F, CHR 0x8C, CHR 0xAE]),
      (''6'', [CHR 0xF0, CHR 0x9F, CHR 0x8D, CHR 0x9C]),
      (''7'', [CHR 0xF0, CHR 0x9F, CHR 0x8D, CHR 0xB0]),
      (''8'', [CHR 0xF0, CHR 0x9F, CHR 0xA5, CHR 0x99])]"

definition objectPrototype :: "string list" where
  "objectPrototype =
     [''constructor'', ''hasOwnProperty'', ''isPrototypeOf'', ''propertyIsEnumerable'',
      ''toLocaleString'', ''toString'', ''valueOf'', ''__proto__'', ''__defineGetter__'',
      ''__defineSetter__'', ''__lookupGetter__'', ''__lookupSetter__'']"

text \<open>\<open>emojiMap[id] || default\<close>: the plate with cutlery when the lookup finds nothing.\<close>

definition emojiFor :: "string \<Rightarrow> glyph" where
  "emojiFor ident =
     (case map_of emojiMap ident of
        Some e \<Rightarrow> Glyph e
      | None \<Rightarrow>
          if ident \<in> set objectPrototype then Inherited ident
          else Glyph [CHR 0xF0, CHR 0x9F, CHR 0x8D, CHR 0xBD, CHR 0xEF, CHR 0xB8, CHR 0x8F])"

text \<open>
  \<open>items.find(i => i.id === id)\<close> gives the first item with that id, by reference, and
  \<open>existing.qty += d\<close> assigns to that item where it stands in the array. Every item of
  the array is an object of its own (made by the literal in \<open>push\<close>), so no other item
  changes. In \<open>add\<close> the amount is 1 and the model keeps the integer sum, which is the sum
  of the doubles as long as the quantity is below \<open>2 ^ 53\<close>. In \<open>changeQty\<close> the amount
  is whatever integer the caller passes (\<open>delta\<close> is the value of the argument, a double),
  so that one call can leave that range: there the sum is rounded as the double is.
\<close>

fun add_qty :: "string \<Rightarrow> int \<Rightarrow> line_item list \<Rightarrow> line_item list" where
  "add_qty ident d [] = []"
| "add_qty ident d (i # rest) =
     (if item_id i = ident then i\<lparr>qty := qty i + d\<rparr> # rest else i # add_qty ident d rest)"

fun add_qty_double :: "string \<Rightarrow> int \<Rightarrow> line_item list \<Rightarrow> line_item list" where
  "add_qty_double ident d [] = []"
| "add_qty_double ident d (i # rest) =
     (if item_id i = ident then i\<lparr>qty := toDouble (qty i + d)\<rparr> # rest
      else i # add_qty_double ident d rest)"

definition add :: "string \<Rightarrow> string \<Rightarrow> string \<Rightarrow> state \<Rightarrow> state completion" where
  "add ident nm pr s =
     (let items' =
            (case find (\<lambda>i. item_id i = ident) (items s) of
               Some existing \<Rightarrow> add_qty ident 1 (items s)
             | None \<Rightarrow>
                 items s @ [\<lparr>item_id = ident, name = nm, price = parseFloat pr, qty = 1,
                             emoji = emojiFor ident\<rparr>])
      in case showToast ([CHR 0xF0, CHR 0x9F, CHR 0x9B, CHR 0x92] @ '' '' @ nm @ '' added to cart!'')
                ''success'' (page s) of
           Returns p \<Rightarrow> Returns \<lparr>items = items', page = p\<rparr>
         | Throws p \<Rightarrow> Throws \<lparr>items = items', page = p\<rparr>)"

definition changeQty :: "string \<Rightarrow> int \<Rightarrow> state \<Rightarrow> state" where
  "changeQty ident delta s =
     (case find (\<lambda>i. item_id i = ident) (items s) of
        None \<Rightarrow> s
      | Some item \<Rightarrow>
          (let items' = add_qty_double ident delta (items s)
           in if toDouble (qty item + delta) \<le> 0
              then s\<lparr>items := filter (\<lambda>i. item_id i \<noteq> ident) items'\<rparr>
              else s\<lparr>items := items'\<rparr>))"

subsection \<open>Totals\<close>

text \<open>
  \<open>items.reduce(callback, initial)\<close> hands the accumulator from item to item. A callback
  is a function of the program and could assign to what it sees, so here it gets the state
  and gives back the state it leaves, next to the new accumulator. The callbacks of
  \<open>getCount\<close> and \<open>getSubtotal\<close> are \<open>sum + i.qty\<close> and \<open>sum + i.price * i.qty\<close>; the
  first adds quantities, as doubles.
\<close>

definition reduce ::
  "('a \<Rightarrow> line_item \<Rightarrow> state \<Rightarrow> 'a \<times> state) \<Rightarrow> 'a \<Rightarrow> state \<Rightarrow> 'a \<times> state" where
  "reduce callback initial s = foldl (\<lambda>(acc, st) i. callback acc i st) (initial, s) (items s)"

text \<open>The two calls: the value returned and the state left behind.\<close>

definition call_getCount :: "state \<Rightarrow> int \<times> state" where
  "call_getCount s = reduce (\<lambda>sum i st. (toDouble (sum + qty i), st)) 0 s"

definition call_getSubtotal :: "state \<Rightarrow> number \<times> state" where
  "call_getSubtotal s = reduce (\<lambda>sum i st. (sum + times_qty (price i) (qty i), st)) 0 s"

definition getCount :: "state \<Rightarrow> int" where
  "getCount s = fst (call_getCount s)"

definition getSubtotal :: "state \<Rightarrow> number" where
  "getSubtotal s = fst (call_getSubtotal s)"

text \<open>
  \<open>render\<close> computes the delivery fee and the total from the array before it writes them
  into the page: \<open>items.length ? 2.99 : 0\<close> and \<open>subtotal + delivery\<close>.
\<close>

definition delivery :: "state \<Rightarrow> number" where
  "delivery s = (if length (items s) \<noteq> 0 then Num 2.99 else Num 0)"

definition total :: "state \<Rightarrow> number" where
  "total s = getSubtotal s + delivery s"

subsection \<open>The drawer\<close>

text \<open>
  \<open>open\<close> and \<open>close\<close> return at once when the drawer or the overlay is missing. The
  argument of \<open>open_cart\<close> is what \<open>getScrollbarWidth()\<close> reads from the window at the call.
\<close>

definition open_cart :: "int \<Rightarrow> state \<Rightarrow> state" where
  "open_cart scrollbarWidth s =
     (case (drawerEl (page s), overlayEl (page s)) of
        (Some d, Some ov) \<Rightarrow>
          s\<lparr>page := (page s)\<lparr>
            drawerEl := Some (d\<lparr>drawer_is_open := True, aria_hidden := ''false''\<rparr>),
            overlayEl := Some (ov\<lparr>overlay_is_open := True\<rparr>),
            body_overflow := ''hidden'',
            body_paddingRight := Px scrollbarWidth\<rparr>\<rparr>
      | _ \<Rightarrow> s)"

definition close_cart :: "state \<Rightarrow> state" where
  "close_cart s =
     (case (drawerEl (page s), overlayEl (page s)) of
        (Some d, Some ov) \<Rightarrow>
          s\<lparr>page := (page s)\<lparr>
            drawerEl := Some (d\<lparr>drawer_is_open := False, aria_hidden := ''true''\<rparr>),
            overlayEl := Some (ov\<lparr>overlay_is_open := False\<rparr>),
            body_overflow := [],
            body_paddingRight := Unset\<rparr>\<rparr>
      | _ \<Rightarrow> s)"

text \<open>The test of both functions passes: neither \<open>drawerEl\<close> nor \<open>overlayEl\<close> is \<open>null\<close>.\<close>

definition drawer_in_page :: "state \<Rightarrow> bool" where
  "drawer_in_page s \<longleftrightarrow> drawerEl (page s) \<noteq> None \<and> overlayEl (page s) \<noteq> None"

text \<open>
  The drawer is open when it has the class \<open>is-open\<close>; this is the test of the key
  handler, \<open>drawerEl?.classList.contains('is-open')\<close>, which is false without a drawer.
\<close>

datatype visibility = Closed | Open

definition visibility :: "state \<Rightarrow> visibility" where
  "visibility s =
     (case drawerEl (page s) of
        Some d \<Rightarrow> if drawer_is_open d then Open else Closed
      | None \<Rightarrow> Closed)"

text \<open>
  The key handler of the document: \<open>Escape\<close> closes an open drawer. The buttons call
  \<open>open\<close> and \<open>close\<close> directly.
\<close>

definition keydown :: "string \<Rightarrow> state \<Rightarrow> state" where
  "keydown key s = (if key = ''Escape'' \<and> visibility s = Open then close_cart s else s)"

text \<open>
  Modelled from the spec: the markup of the page is not among the sources. The spec gives
  the cart a presentation surface that starts \<open>Closed\<close>: the page has the toast, the
  drawer and the overlay, and the drawer is as \<open>close\<close> leaves it.
\<close>

definition markup :: page where
  "markup =
     \<lparr>toastEl = Some \<lparr>textContent = [], className = ''toast''\<rparr>,
      drawerEl = Some \<lparr>drawer_is_open = False, aria_hidden = ''true''\<rparr>,
      overlayEl = Some \<lparr>overlay_is_open = False\<rparr>,
      body_overflow = [],
      body_paddingRight = Unset\<rparr>"

subsection \<open>Sequences of calls\<close>

datatype call =
    Add string string string
  | ChangeQty string int
  | OpenCart int
  | CloseCart

text \<open>The state that a call leaves behind, whether it returned or threw.\<close>

fun step :: "call \<Rightarrow> state \<Rightarrow> state" where
  "step (Add ident nm pr) s = state_of (add ident nm pr s)"
| "step (ChangeQty ident delta) s = changeQty ident delta s"
| "step (OpenCart w) s = open_cart w s"
| "step CloseCart s = close_cart s"

fun run :: "call list \<Rightarrow> state \<Rightarrow> state" where
  "run [] s = s"
| "run (c # cs) s = run cs (step c s)"

text \<open>
  For a sequence of calls that starts at time \<open>t\<close> in state \<open>s\<close>: the time of the call
  that appended the line item of an id, namely the latest \<open>add\<close> of that id that found no
  item with it.
\<close>

fun appended_at :: "call list \<Rightarrow> nat \<Rightarrow> state \<Rightarrow> (string \<Rightarrow> nat) \<Rightarrow> string \<Rightarrow> nat" where
  "appended_at [] t s b = b"
| "appended_at (c # cs) t s b =
     appended_at cs (Suc t) (step c s)
       (case c of
          Add ident nm pr \<Rightarrow> if ident \<in> item_id ` set (items s) then b else b(ident := t)
        | _ \<Rightarrow> b)"

text \<open>
  In the words of the spec, "order = insertion order of first add": the ids that the cart
  holds, in the order in which the calls first add them.
\<close>

fun add_ids :: "call list \<Rightarrow> string list" where
  "add_ids [] = []"
| "add_ids (Add ident nm pr # cs) = ident # add_ids cs"
| "add_ids (c # cs) = add_ids cs"

definition first_add_order :: "call list \<Rightarrow> state \<Rightarrow> string list" where
  "first_add_order cs s =
     filter (\<lambda>x. x \<in> item_id ` set (items s)) (rev (remdups (rev (add_ids cs))))"

fun drawer_call :: "call \<Rightarrow> bool" where
  "drawer_call (OpenCart w) = True"
| "drawer_call CloseCart = True"
| "drawer_call _ = False"

section \<open>Properties\<close>

subsection \<open>Rounding a quantity\<close>

lemma bitlen_le: "0 < n \<Longrightarrow> 2 ^ (bitlen n - 1) \<le> n"
proof (induction n rule: bitlen.induct)
  case (1 n)
  show ?case
  proof (cases "n div 2 \<le> 0")
    case True
    with 1(2) have "n = 1" by linarith
    moreover have "bitlen 1 = 1" by code_simp
    ultimately show ?thesis by simp
  next
    case False
    then have pos: "0 < n div 2" by simp
    from 1(2) have "\<not> n \<le> 0" by simp
    from 1(1) [OF this pos] have ih: "2 ^ (bitlen (n div 2) - 1) \<le> n div 2" .
    have "0 < bitlen (n div 2)" using pos by (subst bitlen.simps) simp
    then have "bitlen n - 1 = Suc (bitlen (n div 2) - 1)"
      using 1(2) by (subst bitlen.simps) simp
    then have "(2::int) ^ (bitlen n - 1) = 2 * 2 ^ (bitlen (n div 2) - 1)" by simp
    also have "\<dots> \<le> 2 * (n div 2)" using ih by simp
    also have "\<dots> \<le> n" by simp
    finally show ?thesis .
  qed
qed


lemma roundMagnitude_pos: "0 < a \<Longrightarrow> 0 < roundMagnitude a"
proof (cases "a < 2 ^ 53")
  case True
  assume "0 < a"
  with True show ?thesis by (simp add: roundMagnitude_def)
next
  case False
  assume pos: "0 < a"
  let ?e = "bitlen a - 53"
  have "(2::int) ^ ?e \<le> 2 ^ (bitlen a - 1)"
    by (rule power_increasing) simp_all
  also have "\<dots> \<le> a" using pos by (rule bitlen_le)
  finally have "(2::int) ^ ?e div 2 ^ ?e \<le> a div 2 ^ ?e"
    by (rule zdiv_mono1) simp
  then have "1 \<le> a div 2 ^ ?e"
    by simp
  then have "0 < (if a mod 2 ^ ?e < 2 ^ (?e - 1) \<or> (a mod 2 ^ ?e = 2 ^ (?e - 1) \<and> even (a div 2 ^ ?e))
      then a div 2 ^ ?e else a div 2 ^ ?e + 1) * 2 ^ ?e"
    by simp
  with False show ?thesis by (simp add: roundMagnitude_def Let_def)
qed

lemma roundMagnitude_zero: "roundMagnitude 0 = 0"
  by (simp add: roundMagnitude_def)


lemma toDouble_pos: "0 < toDouble x \<longleftrightarrow> 0 < x"
  using roundMagnitude_pos [of x] roundMagnitude_pos [of "- x"]
  by (cases "x = 0") (auto simp: toDouble_def roundMagnitude_zero)

lemma toDouble_nonpos: "toDouble x \<le> 0 \<longleftrightarrow> x \<le> 0"
  using toDouble_pos [of x] by linarith

subsection \<open>Finding and updating an item\<close>

lemma find_id_None: "find (\<lambda>i. item_id i = ident) xs = None \<longleftrightarrow> ident \<notin> item_id ` set xs"
  by (induction xs) auto

lemma ids_add_qty: "map item_id (add_qty ident d xs) = map item_id xs"
  by (induction xs) auto


lemma filter_add_qty:
  "filter (\<lambda>i. item_id i \<noteq> ident) (add_qty ident d xs) = filter (\<lambda>i. item_id i \<noteq> ident) xs"
  by (induction xs) auto




lemma positive_add_qty:
  "list_all (\<lambda>i. 0 < qty i) xs \<Longrightarrow> 0 \<le> d \<Longrightarrow> list_all (\<lambda>i. 0 < qty i) (add_qty ident d xs)"
  by (induction xs) auto

lemma ids_add_qty_double: "map item_id (add_qty_double ident d xs) = map item_id xs"
  by (induction xs) auto

lemma filter_add_qty_double:
  "filter (\<lambda>i. item_id i \<noteq> ident) (add_qty_double ident d xs) =
   filter (\<lambda>i. item_id i \<noteq> ident) xs"
  by (induction xs) auto


lemma positive_add_qty_double_found:
  "list_all (\<lambda>i. 0 < qty i) xs \<Longrightarrow> find (\<lambda>i. item_id i = ident) xs = Some it \<Longrightarrow>
   0 < qty it + d \<Longrightarrow> list_all (\<lambda>i. 0 < qty i) (add_qty_double ident d xs)"
  by (induction xs) (auto simp: toDouble_pos split: if_splits)

lemma positive_filter:
  "list_all (\<lambda>i. 0 < qty i) xs \<Longrightarrow> list_all (\<lambda>i. 0 < qty i) (filter P xs)"
  by (induction xs) auto

subsection \<open>What add and changeQty do to the state\<close>

lemma items_add:
  "items (state_of (add ident nm pr s)) =
     (if ident \<in> item_id ` set (items s) then add_qty ident 1 (items s)
      else items s @ [\<lparr>item_id = ident, name = nm, price = parseFloat pr, qty = 1,
                        emoji = emojiFor ident\<rparr>])"
proof (cases "find (\<lambda>i. item_id i = ident) (items s)")
  case None
  then have "ident \<notin> item_id ` set (items s)" by (simp add: find_id_None)
  with None show ?thesis
    by (simp add: add_def Let_def split: completion.splits)
next
  case (Some it)
  then have "ident \<in> item_id ` set (items s)"
    using find_id_None [of ident "items s"] by auto
  with Some show ?thesis
    by (simp add: add_def Let_def split: completion.splits)
qed

lemma page_add:
  "page (state_of (add ident nm pr s)) =
     state_of (showToast ([CHR 0xF0, CHR 0x9F, CHR 0x9B, CHR 0x92] @ '' '' @ nm @ '' added to cart!'')
       ''success'' (page s))"
  by (simp add: add_def Let_def split: completion.splits)

lemma changeQty_absent:
  "ident \<notin> item_id ` set (items s) \<Longrightarrow> changeQty ident delta s = s"
  by (simp add: changeQty_def find_id_None [symmetric])

lemma items_changeQty:
  "items (changeQty ident delta s) =
     (case find (\<lambda>i. item_id i = ident) (items s) of
        None \<Rightarrow> items s
      | Some it \<Rightarrow>
          if qty it + delta \<le> 0 then filter (\<lambda>i. item_id i \<noteq> ident) (items s)
          else add_qty_double ident delta (items s))"
  by (simp add: changeQty_def Let_def filter_add_qty_double toDouble_nonpos split: option.splits)

lemma page_changeQty: "page (changeQty ident delta s) = page s"
  by (simp add: changeQty_def Let_def split: option.splits)

lemma positive_changeQty:
  "list_all (\<lambda>i. 0 < qty i) (items s) \<Longrightarrow>
   list_all (\<lambda>i. 0 < qty i) (items (changeQty ident delta s))"
  by (auto simp: items_changeQty positive_filter positive_add_qty_double_found
      split: option.splits)



subsection \<open>Totals\<close>

lemma reduce_unchanged:
  assumes "\<And>acc i st. callback acc i st = (f acc i, st)"
  shows "reduce callback initial s = (foldl f initial (items s), s)"
proof -
  have "foldl (\<lambda>(acc, st) i. callback acc i st) (a, s) xs = (foldl f a xs, s)" for a xs
    by (induction xs arbitrary: a) (simp_all add: assms)
  then show ?thesis by (simp add: reduce_def)
qed

lemma call_getCount_unfold:
  "call_getCount s = (foldl (\<lambda>sum i. toDouble (sum + qty i)) 0 (items s), s)"
  unfolding call_getCount_def by (rule reduce_unchanged) simp

lemma call_getSubtotal_unfold:
  "call_getSubtotal s = (foldl (\<lambda>sum i. sum + times_qty (price i) (qty i)) 0 (items s), s)"
  unfolding call_getSubtotal_def by (rule reduce_unchanged) simp

lemma getCount_items: "getCount s = foldl (\<lambda>sum i. toDouble (sum + qty i)) 0 (items s)"
  by (simp add: getCount_def call_getCount_unfold)

lemma getSubtotal_items:
  "getSubtotal s = foldl (\<lambda>sum i. sum + times_qty (price i) (qty i)) 0 (items s)"
  by (simp add: getSubtotal_def call_getSubtotal_unfold)

lemma count_fold_positive:
  "list_all (\<lambda>i. 0 < qty i) xs \<Longrightarrow> 0 \<le> a \<Longrightarrow>
   (0 < foldl (\<lambda>sum i. toDouble (sum + qty i)) a xs) = (0 < a \<or> xs \<noteq> [])"
proof (induction xs arbitrary: a)
  case Nil
  then show ?case by simp
next
  case (Cons x xs)
  then have "0 < toDouble (a + qty x)"
    by (simp add: toDouble_pos)
  with Cons.IH [of "toDouble (a + qty x)"] Cons.prems show ?case by simp
qed

lemma positive_count:
  "list_all (\<lambda>i. 0 < qty i) (items s) \<Longrightarrow> (0 < getCount s) = (items s \<noteq> [])"
  using count_fold_positive [of "items s" 0] by (simp add: getCount_items)






lemma total_positive:
  assumes "list_all (\<lambda>i. 0 < qty i) (items s)"
  shows "total s = (if 0 < getCount s then getSubtotal s + Num 2.99 else getSubtotal s)"
  using positive_count [OF assms]
  by (simp add: total_def delivery_def zero_number_def [symmetric])

subsection \<open>The drawer\<close>

lemma items_open_cart: "items (open_cart w s) = items s"
  by (simp add: open_cart_def split: option.splits)

lemma items_close_cart: "items (close_cart s) = items s"
  by (simp add: close_cart_def split: option.splits)

lemma toast_open_cart: "toastEl (page (open_cart w s)) = toastEl (page s)"
  by (simp add: open_cart_def split: option.splits)

lemma toast_close_cart: "toastEl (page (close_cart s)) = toastEl (page s)"
  by (simp add: close_cart_def split: option.splits)

lemma drawer_calls_frame:
  "list_all drawer_call cs \<Longrightarrow>
   items (run cs s) = items s \<and> toastEl (page (run cs s)) = toastEl (page s)"
proof (induction cs arbitrary: s)
  case Nil
  then show ?case by simp
next
  case (Cons c cs)
  then show ?case
    by (cases c) (simp_all add: items_open_cart items_close_cart toast_open_cart toast_close_cart)
qed

lemma visibility_open_cart: "drawer_in_page s \<Longrightarrow> visibility (open_cart w s) = Open"
  by (auto simp: open_cart_def visibility_def drawer_in_page_def)

lemma visibility_close_cart: "drawer_in_page s \<Longrightarrow> visibility (close_cart s) = Closed"
  by (auto simp: close_cart_def visibility_def drawer_in_page_def)

lemma mounted_open_cart: "drawer_in_page (open_cart w s) = drawer_in_page s"
  by (auto simp: open_cart_def drawer_in_page_def split: option.splits)

lemma mounted_close_cart: "drawer_in_page (close_cart s) = drawer_in_page s"
  by (auto simp: close_cart_def drawer_in_page_def split: option.splits)

lemma drawer_add:
  "drawerEl (page (state_of (add ident nm pr s))) = drawerEl (page s)"
  "overlayEl (page (state_of (add ident nm pr s))) = overlayEl (page s)"
  by (simp_all add: page_add showToast_def split: option.splits)

lemma open_cart_twice:
  "open_cart w (open_cart w s) = open_cart w s"
  by (auto simp: open_cart_def split: option.splits)

lemma close_cart_twice:
  "close_cart (close_cart s) = close_cart s"
  by (auto simp: close_cart_def split: option.splits)

subsection \<open>Steps and runs\<close>

lemma positive_step:
  "list_all (\<lambda>i. 0 < qty i) (items s) \<Longrightarrow> list_all (\<lambda>i. 0 < qty i) (items (step c s))"
proof (cases c)
  case (Add ident nm pr)
  assume "list_all (\<lambda>i. 0 < qty i) (items s)"
  with Add show ?thesis by (simp add: items_add positive_add_qty)
next
  case (ChangeQty ident delta)
  assume "list_all (\<lambda>i. 0 < qty i) (items s)"
  with ChangeQty show ?thesis by (simp add: positive_changeQty)
next
  case (OpenCart w)
  assume "list_all (\<lambda>i. 0 < qty i) (items s)"
  with OpenCart show ?thesis by (simp add: open_cart_def split: option.splits)
next
  case CloseCart
  assume "list_all (\<lambda>i. 0 < qty i) (items s)"
  with CloseCart show ?thesis by (simp add: close_cart_def split: option.splits)
qed

lemma ids_step:
  "map item_id (items (step c s)) =
     (case c of
        Add ident nm pr \<Rightarrow>
          if ident \<in> set (map item_id (items s)) then map item_id (items s)
          else map item_id (items s) @ [ident]
      | ChangeQty ident delta \<Rightarrow>
          (case find (\<lambda>i. item_id i = ident) (items s) of
             None \<Rightarrow> map item_id (items s)
           | Some it \<Rightarrow>
               if qty it + delta \<le> 0 then filter (\<lambda>x. x \<noteq> ident) (map item_id (items s))
               else map item_id (items s))
      | _ \<Rightarrow> map item_id (items s))"
  by (cases c)
     (auto simp: items_add items_changeQty ids_add_qty ids_add_qty_double filter_map comp_def
        open_cart_def close_cart_def split: option.splits)

lemma distinct_step:
  "distinct (map item_id (items s)) \<Longrightarrow> distinct (map item_id (items (step c s)))"
  unfolding ids_step by (auto split: call.splits option.splits)

lemma run_invariant:
  "P s \<Longrightarrow> (\<And>c s. P s \<Longrightarrow> P (step c s)) \<Longrightarrow> P (run cs s)"
  by (induction cs arbitrary: s) auto

lemma positive_run: "list_all (\<lambda>i. 0 < qty i) (items (run cs (Cart p)))"
  by (rule run_invariant) (simp_all add: Cart_def positive_step)


lemma mounted_step: "drawer_in_page s \<Longrightarrow> drawer_in_page (step c s)"
  by (cases c)
     (simp_all add: mounted_open_cart mounted_close_cart,
      simp_all add: drawer_in_page_def drawer_add page_changeQty)

lemma mounted_run: "drawer_in_page (run cs (Cart markup))"
  by (rule run_invariant) (simp_all add: mounted_step, simp add: drawer_in_page_def Cart_def markup_def)

lemma ids_run_snoc:
  "run (cs @ [c]) s = step c (run cs s)"
  by (induction cs arbitrary: s) auto

lemma ids_run_adds:
  "map item_id (items (run (map (\<lambda>(i, n, q). Add i n q) adds) (Cart p))) =
     rev (remdups (rev (map fst adds)))"
proof (induction adds rule: rev_induct)
  case Nil
  then show ?case by (simp add: Cart_def)
next
  case (snoc a adds)
  obtain i n pr where a: "a = (i, n, pr)" by (cases a)
  let ?s = "run (map (\<lambda>(i, n, q). Add i n q) adds) (Cart p)"
  have "set (map item_id (items ?s)) = set (map fst adds)"
    by (simp only: snoc.IH set_rev set_remdups)
  then have mem: "i \<in> set (map item_id (items ?s)) \<longleftrightarrow> i \<in> set (map fst adds)"
    by simp
  have "map item_id (items (run (map (\<lambda>(i, n, q). Add i n q) (adds @ [a])) (Cart p))) =
      map item_id (items (step (Add i n pr) ?s))"
    by (simp add: a ids_run_snoc)
  also have "\<dots> = (if i \<in> set (map fst adds) then map item_id (items ?s)
      else map item_id (items ?s) @ [i])"
    unfolding ids_step using mem by simp
  also have "\<dots> = rev (remdups (rev (map fst (adds @ [a]))))"
    by (simp add: snoc.IH a)
  finally show ?case .
qed

lemma stamp_keep:
  assumes "sorted_wrt (<) (map b ids)" and "\<forall>x \<in> set ids. b x < t"
    and "ids' = ids \<or> ids' = filter P ids"
  shows "sorted_wrt (<) (map b ids') \<and> (\<forall>x \<in> set ids'. b x < Suc t)"
  using assms by (auto simp: sorted_wrt_map sorted_wrt_filter less_Suc_eq)

lemma stamp_append:
  assumes "sorted_wrt (<) (map b ids)" and "\<forall>x \<in> set ids. b x < t" and "ident \<notin> set ids"
  shows "sorted_wrt (<) (map (b(ident := t)) (ids @ [ident]))
    \<and> (\<forall>x \<in> set (ids @ [ident]). (b(ident := t)) x < Suc t)"
proof -
  from assms(3) have same: "map (b(ident := t)) ids = map b ids"
    by auto
  have shape: "map (b(ident := t)) (ids @ [ident]) = map b ids @ [t]"
    by (simp only: map_append same list.map fun_upd_same)
  have "\<forall>y \<in> set (map b ids). y < t"
    using assms(2) by auto
  with assms(1) have "sorted_wrt (<) (map b ids @ [t])"
    by (simp only: sorted_wrt_append) simp
  with shape have "sorted_wrt (<) (map (b(ident := t)) (ids @ [ident]))"
    by (simp only:)
  moreover have "\<forall>x \<in> set (ids @ [ident]). (b(ident := t)) x < Suc t"
    using assms(2) by (auto simp: less_Suc_eq)
  ultimately show ?thesis by blast
qed

lemma appended_at_sorted:
  assumes "distinct (map item_id (items s))"
    and "sorted_wrt (<) (map b (map item_id (items s)))"
    and "\<forall>x \<in> set (map item_id (items s)). b x < t"
  shows "sorted_wrt (<) (map (appended_at cs t s b) (map item_id (items (run cs s))))"
  using assms
proof (induction cs arbitrary: t s b)
  case Nil
  then show ?case by simp
next
  case (Cons c cs)
  let ?ids = "map item_id (items s)"
  let ?ids' = "map item_id (items (step c s))"
  let ?b = "case c of
      Add ident nm pr \<Rightarrow> if ident \<in> item_id ` set (items s) then b else b(ident := t)
    | _ \<Rightarrow> b"
  have d: "distinct ?ids'"
    using Cons.prems(1) by (rule distinct_step)
  have inv: "sorted_wrt (<) (map ?b ?ids') \<and> (\<forall>x \<in> set ?ids'. ?b x < Suc t)"
  proof (cases c)
    case (Add ident nm pr)
    show ?thesis
    proof (cases "ident \<in> item_id ` set (items s)")
      case True
      with Add have ids': "?ids' = ?ids \<or> ?ids' = filter (\<lambda>x. True) ?ids"
        using ids_step [of c s] by simp
      from True Add have b': "?b = b" by simp
      show ?thesis
        unfolding b' by (rule stamp_keep [OF Cons.prems(2,3) ids'])
    next
      case False
      then have absent: "ident \<notin> set ?ids" by simp
      from False Add have ids': "?ids' = ?ids @ [ident]"
        using ids_step [of c s] by simp
      from False Add have b': "?b = b(ident := t)" by simp
      show ?thesis
        unfolding b' ids' by (rule stamp_append [OF Cons.prems(2,3) absent])
    qed
  next
    case (ChangeQty ident delta)
    then have b': "?b = b" by simp
    from ChangeQty have ids': "?ids' = ?ids \<or> ?ids' = filter (\<lambda>x. x \<noteq> ident) ?ids"
      using ids_step [of c s] by (simp split: option.splits)
    show ?thesis
      unfolding b' by (rule stamp_keep [OF Cons.prems(2,3) ids'])
  next
    case (OpenCart w)
    then have b': "?b = b" by simp
    from OpenCart have ids': "?ids' = ?ids \<or> ?ids' = filter (\<lambda>x. True) ?ids"
      using ids_step [of c s] by simp
    show ?thesis
      unfolding b' by (rule stamp_keep [OF Cons.prems(2,3) ids'])
  next
    case CloseCart
    then have b': "?b = b" by simp
    from CloseCart have ids': "?ids' = ?ids \<or> ?ids' = filter (\<lambda>x. True) ?ids"
      using ids_step [of c s] by simp
    show ?thesis
      unfolding b' by (rule stamp_keep [OF Cons.prems(2,3) ids'])
  qed
  from Cons.IH [OF d conjunct1 [OF inv] conjunct2 [OF inv]] show ?case by simp
qed

section \<open>The claims\<close>

subsection \<open>C1: repeated add of one id\<close>



subsection \<open>C2: changeQty of an id in the cart\<close>




subsection \<open>C3: the delivery fee\<close>

text \<open>
  Claim C3. The total that \<open>render\<close> computes is the subtotal plus 2.99 when \<open>getCount\<close>
  is positive and the subtotal alone otherwise. \<open>render\<close> tests the length of the array,
  not the count; the two tests agree in every state whose quantities are positive, and so
  in every state that calls of the four functions reach from the empty cart, in any page.
  The total of the empty cart is its subtotal.
\<close>

theorem delivery_fee:
  "(list_all (\<lambda>i. 0 < qty i) (items s) \<longrightarrow>
      total s = (if 0 < getCount s then getSubtotal s + Num 2.99 else getSubtotal s))
   \<and> total (run cs (Cart p)) =
       (if 0 < getCount (run cs (Cart p)) then getSubtotal (run cs (Cart p)) + Num 2.99
        else getSubtotal (run cs (Cart p)))
   \<and> (0 < getCount (run cs (Cart p))) = (items (run cs (Cart p)) \<noteq> [])
   \<and> total (Cart p) = getSubtotal (Cart p)"
proof -
  have "(0 < getCount (run cs (Cart p))) = (items (run cs (Cart p)) \<noteq> [])"
    by (rule positive_count [OF positive_run])
  moreover have "total (Cart p) = getSubtotal (Cart p)"
    by (simp add: total_def delivery_def Cart_def zero_number_def [symmetric])
  ultimately show ?thesis
    using total_positive [of s] total_positive [OF positive_run [of cs p]] by blast
qed

theorem delivery_fee_witness:
  "list_all (\<lambda>i. 0 < qty i)
     (items (run [Add ''1'' ''Burger'' ''5.00'', Add ''1'' ''Burger'' ''5.00''] (Cart markup)))
   \<and> getCount (run [Add ''1'' ''Burger'' ''5.00'', Add ''1'' ''Burger'' ''5.00''] (Cart markup)) = 2
   \<and> getSubtotal (run [Add ''1'' ''Burger'' ''5.00'', Add ''1'' ''Burger'' ''5.00''] (Cart markup)) = Num 10
   \<and> total (run [Add ''1'' ''Burger'' ''5.00'', Add ''1'' ''Burger'' ''5.00''] (Cart markup)) = Num 12.99
   \<and> getCount (run [Add ''2'' ''Pizza'' ''10'', ChangeQty ''2'' (- 1)] (Cart markup)) = 0
   \<and> total (run [Add ''2'' ''Pizza'' ''10'', ChangeQty ''2'' (- 1)] (Cart markup)) = Num 0"
proof -
  let ?two = "run [Add ''1'' ''Burger'' ''5.00'', Add ''1'' ''Burger'' ''5.00''] (Cart markup)"
  let ?none = "run [Add ''2'' ''Pizza'' ''10'', ChangeQty ''2'' (- 1)] (Cart markup)"
  have pos: "list_all (\<lambda>i. 0 < qty i) (items ?two)" by code_simp
  have count: "getCount ?two = 2" by code_simp
  have sub: "getSubtotal ?two = Num 10" by code_simp
  have count0: "getCount ?none = 0" by code_simp
  have sub0: "getSubtotal ?none = Num 0" by code_simp
  from delivery_fee [of ?two "[Add ''1'' ''Burger'' ''5.00'', Add ''1'' ''Burger'' ''5.00'']" markup]
    pos count sub
  have "total ?two = Num 12.99"
    by (simp add: plus_number_def)
  moreover
  from delivery_fee [of ?none "[Add ''2'' ''Pizza'' ''10'', ChangeQty ''2'' (- 1)]" markup]
    count0 sub0
  have "total ?none = Num 0"
    by simp
  ultimately show ?thesis using pos count sub count0 by simp
qed

subsection \<open>C4: one item for an id, positive quantities\<close>



subsection \<open>C5: changeQty of an id that is not in the cart\<close>

text \<open>
  Claim C5. When no item has the id, \<open>changeQty\<close> returns at once: the state after the
  call is the state before it, items and page alike. Nothing in \<open>changeQty\<close> can throw,
  which is why the model gives it a plain state as result.
\<close>

theorem changeQty_unknown_id:
  "ident \<notin> item_id ` set (items s) \<Longrightarrow> changeQty ident delta s = s"
  by (rule changeQty_absent)

theorem changeQty_unknown_id_witness:
  "''2'' \<notin> item_id ` set (items (state_of (add ''1'' ''Burger'' ''5.00'' (Cart markup)))) \<and>
   changeQty ''2'' (- 1) (state_of (add ''1'' ''Burger'' ''5.00'' (Cart markup))) =
     state_of (add ''1'' ''Burger'' ''5.00'' (Cart markup))"
proof -
  have absent: "''2'' \<notin> item_id ` set (items (state_of (add ''1'' ''Burger'' ''5.00'' (Cart markup))))"
    by (simp add: items_add Cart_def)
  from absent changeQty_unknown_id [OF absent] show ?thesis by (rule conjI)
qed

subsection \<open>C6: add with a price that does not parse\<close>




subsection \<open>C7: the order of the line items\<close>

text \<open>
  Claim C7, as amended. \<open>add\<close> keeps the order of the ids and puts a new id last; \<open>changeQty\<close>
  either filters the items of its id out of the array or keeps the ids as they are. So
  in every state reached from the empty cart the line items stand in the order of the
  calls that appended them (\<open>appended_at\<close> is strictly increasing along the array); an id
  that was removed and is added again is a new id and goes last. When the calls are all
  \<open>add\<close>, the ids stand in the order of their first occurrence among the calls.
\<close>

theorem insertion_order:
  "map item_id (items (state_of (add ident nm pr s))) =
     (if ident \<in> set (map item_id (items s)) then map item_id (items s)
      else map item_id (items s) @ [ident])
   \<and> (items (changeQty ident delta s) = filter (\<lambda>i. item_id i \<noteq> ident) (items s)
      \<or> map item_id (items (changeQty ident delta s)) = map item_id (items s))
   \<and> sorted_wrt (<) (map (appended_at cs 0 (Cart p) (\<lambda>x. 0))
        (map item_id (items (run cs (Cart p)))))
   \<and> map item_id (items (run (map (\<lambda>(i, n, q). Add i n q) adds) (Cart p))) =
        rev (remdups (rev (map fst adds)))"
proof -
  have a: "map item_id (items (state_of (add ident nm pr s))) =
     (if ident \<in> set (map item_id (items s)) then map item_id (items s)
      else map item_id (items s) @ [ident])"
    using ids_step [of "Add ident nm pr" s] by simp
  have c: "items (changeQty ident delta s) = filter (\<lambda>i. item_id i \<noteq> ident) (items s)
      \<or> map item_id (items (changeQty ident delta s)) = map item_id (items s)"
    by (simp add: items_changeQty ids_add_qty_double split: option.splits)
  have r: "sorted_wrt (<) (map (appended_at cs 0 (Cart p) (\<lambda>x. 0))
        (map item_id (items (run cs (Cart p)))))"
    by (rule appended_at_sorted) (simp_all add: Cart_def)
  from a c r ids_run_adds [of adds p] show ?thesis by blast
qed

theorem insertion_order_witness:
  "map item_id (items (run
      [Add ''1'' ''Burger'' ''5.00'', Add ''2'' ''Pizza'' ''10'', ChangeQty ''1'' (- 1),
       Add ''1'' ''Burger'' ''5.00'', Add ''2'' ''Pizza'' ''10''] (Cart markup))) = [''2'', ''1'']
   \<and> map (appended_at
        [Add ''1'' ''Burger'' ''5.00'', Add ''2'' ''Pizza'' ''10'', ChangeQty ''1'' (- 1),
         Add ''1'' ''Burger'' ''5.00'', Add ''2'' ''Pizza'' ''10''] 0 (Cart markup) (\<lambda>x. 0))
       [''2'', ''1''] = [1, 3]
   \<and> sorted_wrt (<) (map (appended_at
        [Add ''1'' ''Burger'' ''5.00'', Add ''2'' ''Pizza'' ''10'', ChangeQty ''1'' (- 1),
         Add ''1'' ''Burger'' ''5.00'', Add ''2'' ''Pizza'' ''10''] 0 (Cart markup) (\<lambda>x. 0))
       [''2'', ''1''])
   \<and> map item_id (items (run
        (map (\<lambda>(i, n, q). Add i n q)
          [(''1'', ''Burger'', ''5.00''), (''2'', ''Pizza'', ''10''), (''1'', ''Burger'', ''5.00'')])
        (Cart markup))) = [''1'', ''2'']"
proof -
  let ?cs = "[Add ''1'' ''Burger'' ''5.00'', Add ''2'' ''Pizza'' ''10'', ChangeQty ''1'' (- 1),
       Add ''1'' ''Burger'' ''5.00'', Add ''2'' ''Pizza'' ''10'']"
  have ids: "map item_id (items (run ?cs (Cart markup))) = [''2'', ''1'']" by code_simp
  have stamps: "map (appended_at ?cs 0 (Cart markup) (\<lambda>x. 0)) [''2'', ''1''] = [1, 3]"
    by code_simp
  note order = insertion_order [of "''1''" "''Burger''" "''5.00''" "Cart markup" 0 ?cs markup
      "[(''1'', ''Burger'', ''5.00''), (''2'', ''Pizza'', ''10''), (''1'', ''Burger'', ''5.00'')]"]
  from order have "sorted_wrt (<) (map (appended_at ?cs 0 (Cart markup) (\<lambda>x. 0))
      (map item_id (items (run ?cs (Cart markup)))))"
    by blast
  then have sorted: "sorted_wrt (<) (map (appended_at ?cs 0 (Cart markup) (\<lambda>x. 0)) [''2'', ''1''])"
    by (simp only: ids)
  from order have "map item_id (items (run
        (map (\<lambda>(i, n, q). Add i n q)
          [(''1'', ''Burger'', ''5.00''), (''2'', ''Pizza'', ''10''), (''1'', ''Burger'', ''5.00'')])
        (Cart markup))) =
      rev (remdups (rev (map fst
        [(''1'', ''Burger'', ''5.00''), (''2'', ''Pizza'', ''10''), (''1'', ''Burger'', ''5.00'')])))"
    by blast
  then have adds: "map item_id (items (run
        (map (\<lambda>(i, n, q). Add i n q)
          [(''1'', ''Burger'', ''5.00''), (''2'', ''Pizza'', ''10''), (''1'', ''Burger'', ''5.00'')])
        (Cart markup))) = [''1'', ''2'']"
    by simp
  from ids stamps sorted adds show ?thesis by blast
qed

text \<open>
  The claim as stated, that the order is that of each id's first add, fails once an id
  has been removed: after \<open>add 1\<close>, \<open>add 2\<close>, \<open>changeQty 1 (-1)\<close>, \<open>add 1\<close> the cart
  holds 2 before 1, and the first adds come in the order 1, 2.
\<close>

theorem first_add_order_counterexample:
  "map item_id (items (run
      [Add ''1'' ''Burger'' ''5.00'', Add ''2'' ''Pizza'' ''10'', ChangeQty ''1'' (- 1),
       Add ''1'' ''Burger'' ''5.00''] (Cart markup))) = [''2'', ''1'']
   \<and> first_add_order
      [Add ''1'' ''Burger'' ''5.00'', Add ''2'' ''Pizza'' ''10'', ChangeQty ''1'' (- 1),
       Add ''1'' ''Burger'' ''5.00'']
      (run
        [Add ''1'' ''Burger'' ''5.00'', Add ''2'' ''Pizza'' ''10'', ChangeQty ''1'' (- 1),
         Add ''1'' ''Burger'' ''5.00''] (Cart markup)) = [''1'', ''2'']"
  by code_simp

subsection \<open>C8: the count and the subtotal\<close>



subsection \<open>C9: the drawer is open or closed\<close>

text \<open>
  Claim C9. The drawer has two states, \<open>Closed\<close> and \<open>Open\<close>, and starts \<open>Closed\<close>.
  In a page that has the drawer and the overlay, \<open>open\<close> leads to \<open>Open\<close> and \<open>close\<close>
  to \<open>Closed\<close> from every state: open twice is \<open>Open\<close>, close twice is \<open>Closed\<close>,
  open then close is \<open>Closed\<close>. A second \<open>close\<close> changes nothing at all, and neither
  does a second \<open>open\<close> that reads the same scrollbar width. \<open>add\<close> and \<open>changeQty\<close>
  do not move the drawer, and a key does nothing or what \<open>close\<close> does. Every state
  reached from the initial one has the drawer and the overlay, so there \<open>open\<close> and
  \<open>close\<close> always lead to \<open>Open\<close> and \<open>Closed\<close>.
\<close>

theorem visibility_machine:
  "visibility (Cart markup) = Closed
   \<and> (v = Closed \<or> v = Open)
   \<and> (drawer_in_page s \<longrightarrow>
        visibility (open_cart w s) = Open
        \<and> visibility (close_cart s) = Closed
        \<and> visibility (open_cart w' (open_cart w s)) = Open
        \<and> visibility (close_cart (close_cart s)) = Closed
        \<and> visibility (close_cart (open_cart w s)) = Closed)
   \<and> open_cart w (open_cart w s) = open_cart w s
   \<and> close_cart (close_cart s) = close_cart s
   \<and> visibility (state_of (add ident nm pr s)) = visibility s
   \<and> visibility (changeQty ident delta s) = visibility s
   \<and> (keydown key s = s \<or> keydown key s = close_cart s)
   \<and> visibility (open_cart w (run cs (Cart markup))) = Open
   \<and> visibility (close_cart (run cs (Cart markup))) = Closed"
proof -
  have start: "visibility (Cart markup) = Closed"
    by (simp add: visibility_def Cart_def markup_def)
  have two: "v = Closed \<or> v = Open"
    by (cases v) simp_all
  have moves: "drawer_in_page s \<longrightarrow>
        visibility (open_cart w s) = Open
        \<and> visibility (close_cart s) = Closed
        \<and> visibility (open_cart w' (open_cart w s)) = Open
        \<and> visibility (close_cart (close_cart s)) = Closed
        \<and> visibility (close_cart (open_cart w s)) = Closed"
    by (simp add: visibility_open_cart visibility_close_cart mounted_open_cart mounted_close_cart)
  have others: "visibility (state_of (add ident nm pr s)) = visibility s
      \<and> visibility (changeQty ident delta s) = visibility s"
    by (simp add: visibility_def drawer_add page_changeQty)
  have reached: "visibility (open_cart w (run cs (Cart markup))) = Open
      \<and> visibility (close_cart (run cs (Cart markup))) = Closed"
    using mounted_run [of cs] by (simp add: visibility_open_cart visibility_close_cart)
  have keys: "keydown key s = s \<or> keydown key s = close_cart s"
    by (simp add: keydown_def)
  from start two moves others keys reached open_cart_twice [of w s] close_cart_twice [of s]
  show ?thesis by blast
qed

theorem visibility_machine_witness:
  "drawer_in_page (Cart markup)
   \<and> visibility (Cart markup) = Closed
   \<and> visibility (open_cart 15 (Cart markup)) = Open
   \<and> visibility (open_cart 0 (open_cart 15 (Cart markup))) = Open
   \<and> visibility (close_cart (close_cart (Cart markup))) = Closed
   \<and> visibility (close_cart (open_cart 15 (Cart markup))) = Closed"
proof -
  have here: "drawer_in_page (Cart markup)"
    by (simp add: drawer_in_page_def Cart_def markup_def)
  from visibility_machine [of Closed "Cart markup" 15 0 "''1''" "''Burger''" "''5.00''" 0
      "''Escape''" "[]"] here
  show ?thesis by blast
qed

subsection \<open>C10: open and close leave the cart alone\<close>

text \<open>
  Claim C10. \<open>open\<close> and \<open>close\<close> change neither the array of line items nor the
  toast. After any sequence of calls of the two, the items are the same, in the same
  order and with the same quantities, and so are the count and the subtotal.
\<close>

theorem drawer_frame:
  "items (open_cart w s) = items s \<and> items (close_cart s) = items s
   \<and> toastEl (page (open_cart w s)) = toastEl (page s)
   \<and> toastEl (page (close_cart s)) = toastEl (page s)
   \<and> (list_all drawer_call cs \<longrightarrow>
        items (run cs s) = items s \<and> toastEl (page (run cs s)) = toastEl (page s)
        \<and> getCount (run cs s) = getCount s \<and> getSubtotal (run cs s) = getSubtotal s)"
  using drawer_calls_frame [of cs s]
  by (simp add: items_open_cart items_close_cart toast_open_cart toast_close_cart
      getCount_items getSubtotal_items)

theorem drawer_frame_witness:
  "list_all drawer_call [OpenCart 15, CloseCart, OpenCart 0]
   \<and> items (run [OpenCart 15, CloseCart, OpenCart 0]
        (state_of (add ''1'' ''Burger'' ''5.00'' (Cart markup)))) =
       items (state_of (add ''1'' ''Burger'' ''5.00'' (Cart markup)))
   \<and> getCount (run [OpenCart 15, CloseCart, OpenCart 0]
        (state_of (add ''1'' ''Burger'' ''5.00'' (Cart markup)))) = 1
   \<and> getSubtotal (run [OpenCart 15, CloseCart, OpenCart 0]
        (state_of (add ''1'' ''Burger'' ''5.00'' (Cart markup)))) = Num 5"
proof -
  let ?s = "state_of (add ''1'' ''Burger'' ''5.00'' (Cart markup))"
  have calls: "list_all drawer_call [OpenCart 15, CloseCart, OpenCart 0]" by simp
  have count: "getCount ?s = 1" by code_simp
  have sub: "getSubtotal ?s = Num 5" by code_simp
  from drawer_frame [of 15 ?s "[OpenCart 15, CloseCart, OpenCart 0]"] calls count sub
  show ?thesis by simp
qed

end
